theory Spec2Isabelle
  imports Main
begin

section \<open>Values, rows and tables\<close>

text \<open>
  The store of \<^verbatim>\<open>postgres.go\<close> talks to a relational engine through the driver.
  The embedding keeps the Go functions as they are written and interprets each SQL
  statement they issue as a function on the tables it reads or writes.

  A \<^verbatim>\<open>sql.NullInt64\<close> is an optional integer (\<open>None\<close> is SQL \<open>NULL\<close>); a calendar
  day (SQL \<open>date\<close>) is a day number; a timestamp counts microseconds.  Go's \<open>int\<close>
  counters are taken as unbounded integers.
\<close>

type_synonym NullInt64 = "int option"
type_synonym date = int
type_synonym timestamp = int

definition usec_per_day :: int where
  "usec_per_day = 86400000000"

text \<open>SQL \<^verbatim>\<open>date("time")\<close>: the calendar day of a timestamp.\<close>

definition date_of :: "timestamp \<Rightarrow> date" where
  "date_of t = t div usec_per_day"

text \<open>SQL \<^verbatim>\<open>$2 + INTERVAL '1 day'\<close> on a timestamp.\<close>

definition plus_1_day :: "timestamp \<Rightarrow> timestamp" where
  "plus_1_day t = t + usec_per_day"

text \<open>SQL \<^verbatim>\<open>LOWER\<close> on text, on the ASCII letters.\<close>

definition lower_char :: "char \<Rightarrow> char" where
  "lower_char c =
     (if 65 \<le> (of_char c :: nat) \<and> (of_char c :: nat) \<le> 90
      then char_of ((of_char c :: nat) + 32) else c)"

definition LOWER :: "string \<Rightarrow> string" where
  "LOWER s = map lower_char s"

text \<open>
  The tenant predicate every query carries,
  \<^verbatim>\<open>($1::bigint IS NULL OR tenant_id = $1)\<close>: a \<open>NULL\<close> parameter matches every row,
  a parameter \<open>t\<close> matches the rows whose \<open>tenant_id\<close> is \<open>t\<close> (a row with a
  \<open>NULL\<close> tenant compares to \<open>NULL\<close>, which is not true).
\<close>

definition tenant_match :: "NullInt64 \<Rightarrow> NullInt64 \<Rightarrow> bool" where
  "tenant_match param col = (param = None \<or> col = param)"

text \<open>
  Modelled from the spec: the \<^verbatim>\<open>Hit\<close> struct is declared outside \<^verbatim>\<open>postgres.go\<close>.
  Its fields are the fourteen that \<^verbatim>\<open>SaveHits\<close> reads, named here by the columns of
  table \<^verbatim>\<open>hit\<close> they are written to (section 6 of the specification).
\<close>

record hit =
  tenant_id :: NullInt64
  fingerprint :: string
  path :: string
  url :: string
  language :: string
  user_agent :: string
  ref :: string
  os :: string
  os_version :: string
  browser :: string
  browser_version :: string
  desktop :: bool
  mobile :: bool
  time :: timestamp

text \<open>
  Modelled from the spec: the six statistics structs are declared outside
  \<^verbatim>\<open>postgres.go\<close>.  They share the identity, the tenant, the day, the path and the
  visitor counter (what the \<^verbatim>\<open>StatsEntity\<close> interface reads through \<^verbatim>\<open>GetID\<close> and
  \<^verbatim>\<open>GetVisitors\<close>); each dimension adds its key or counter fields.  The field \<open>Day\<close>
  holds the value of the \<open>date\<close> column \<^verbatim>\<open>day\<close>.
\<close>

record stats =
  ID :: int
  TenantID :: NullInt64
  Day :: date
  Path :: string
  Visitors :: int

record visitor_stats = stats +
  PlatformDesktop :: int
  PlatformMobile :: int
  PlatformUnknown :: int

record visitor_time_stats = stats +
  Hour :: int

record language_stats = stats +
  Language :: string

record referrer_stats = stats +
  Referrer :: string

record os_stats = stats +
  OS :: string
  OSVersion :: string

record browser_stats = stats +
  Browser :: string
  BrowserVersion :: string



text \<open>The zero values that Go's \<^verbatim>\<open>new(T)\<close> allocates.\<close>

definition new_VisitorStats :: visitor_stats where
  "new_VisitorStats = \<lparr>ID = 0, TenantID = None, Day = 0, Path = [], Visitors = 0,
     PlatformDesktop = 0, PlatformMobile = 0, PlatformUnknown = 0\<rparr>"






text \<open>The seven tables, each a list of rows in the order the engine scans them.\<close>

record tables =
  t_hit :: "hit list"
  t_visitor_stats :: "visitor_stats list"
  t_visitor_time_stats :: "visitor_time_stats list"
  t_language_stats :: "language_stats list"
  t_referrer_stats :: "referrer_stats list"
  t_os_stats :: "os_stats list"
  t_browser_stats :: "browser_stats list"

definition empty_tables :: tables where
  "empty_tables = \<lparr>t_hit = [], t_visitor_stats = [], t_visitor_time_stats = [],
     t_language_stats = [], t_referrer_stats = [], t_os_stats = [], t_browser_stats = []\<rparr>"

section \<open>The connection: transactions and failing driver calls\<close>

datatype error =
    ErrNoRows
  | ErrTxDone
  | ErrDriver
  | ErrSyntax
  | ErrUndefinedColumn string
  | ErrParameters

text \<open>
  A call either returns or does not: \<open>Fatal\<close> is the run that \<^verbatim>\<open>logger.Fatalf\<close> ends
  (the process exits), \<open>Panic\<close> a run-time panic of Go.
\<close>

datatype 'a run = Fatal | Panic | Returned 'a

text \<open>
  \<open>DB\<close> holds the committed tables.  An open transaction works on its own copy of the
  tables, taken when it begins; committing installs the copy, rolling back drops it.
  The model follows one session; what concurrent sessions do is outside it.
  \<open>faults\<close> scripts the environment: each call that reaches the engine takes the next
  flag, and fails without effect when the flag is set (an empty script: no call fails).
  \<open>current_date\<close> is the engine's \<^verbatim>\<open>current_date\<close>.
\<close>

record store =
  DB :: tables
  txs :: "nat \<rightharpoonup> tables"
  next_tx :: nat
  faults :: "bool list"
  current_date :: date

definition draw :: "store \<Rightarrow> bool \<times> store" where
  "draw s = (case faults s of [] \<Rightarrow> (False, s) | b # bs \<Rightarrow> (b, s\<lparr>faults := bs\<rparr>))"

definition Beginx :: "store \<Rightarrow> (error + nat) \<times> store" where
  "Beginx s =
     (case draw s of
        (True, s1) \<Rightarrow> (Inl ErrDriver, s1)
      | (False, s1) \<Rightarrow>
          (Inr (next_tx s1),
           s1\<lparr>txs := (txs s1)(next_tx s1 \<mapsto> DB s1), next_tx := Suc (next_tx s1)\<rparr>))"

definition tx_Commit :: "store \<Rightarrow> nat \<Rightarrow> error option \<times> store" where
  "tx_Commit s tx =
     (case txs s tx of
        None \<Rightarrow> (Some ErrTxDone, s)
      | Some T \<Rightarrow>
          (case draw s of
             (True, s1) \<Rightarrow> (Some ErrDriver, s1\<lparr>txs := (txs s1)(tx := None)\<rparr>)
           | (False, s1) \<Rightarrow> (None, s1\<lparr>DB := T, txs := (txs s1)(tx := None)\<rparr>)))"

definition tx_Rollback :: "store \<Rightarrow> nat \<Rightarrow> error option \<times> store" where
  "tx_Rollback s tx =
     (case txs s tx of
        None \<Rightarrow> (Some ErrTxDone, s)
      | Some T \<Rightarrow>
          (case draw s of
             (True, s1) \<Rightarrow> (Some ErrDriver, s1\<lparr>txs := (txs s1)(tx := None)\<rparr>)
           | (False, s1) \<Rightarrow> (None, s1\<lparr>txs := (txs s1)(tx := None)\<rparr>)))"

text \<open>
  \<^verbatim>\<open>tx.Get\<close>: the first row of a query's result, scanned into the destination struct;
  \<^verbatim>\<open>sql.ErrNoRows\<close> when the result is empty.  The query is given as the function from
  the tables to that scanned first row.
\<close>

definition tx_Get :: "store \<Rightarrow> nat \<Rightarrow> (tables \<Rightarrow> 'r option) \<Rightarrow> (error + 'r) \<times> store" where
  "tx_Get s tx query =
     (case txs s tx of
        None \<Rightarrow> (Inl ErrTxDone, s)
      | Some T \<Rightarrow>
          (case draw s of
             (True, s1) \<Rightarrow> (Inl ErrDriver, s1)
           | (False, s1) \<Rightarrow>
               (case query T of None \<Rightarrow> (Inl ErrNoRows, s1) | Some r \<Rightarrow> (Inr r, s1))))"

text \<open>
  \<^verbatim>\<open>tx.Exec\<close> and \<^verbatim>\<open>tx.NamedQuery\<close> run a statement on the transaction's tables; a
  statement the engine rejects leaves them as they were.
\<close>

definition tx_Exec :: "store \<Rightarrow> nat \<Rightarrow> (tables \<Rightarrow> error + tables) \<Rightarrow> error option \<times> store" where
  "tx_Exec s tx stmt =
     (case txs s tx of
        None \<Rightarrow> (Some ErrTxDone, s)
      | Some T \<Rightarrow>
          (case draw s of
             (True, s1) \<Rightarrow> (Some ErrDriver, s1)
           | (False, s1) \<Rightarrow>
               (case stmt T of
                  Inl err \<Rightarrow> (Some err, s1)
                | Inr T' \<Rightarrow> (None, s1\<lparr>txs := (txs s1)(tx \<mapsto> T')\<rparr>))))"

definition tx_NamedQuery :: "store \<Rightarrow> nat \<Rightarrow> (tables \<Rightarrow> error + tables) \<Rightarrow> error option \<times> store" where
  "tx_NamedQuery s tx stmt = tx_Exec s tx stmt"

text \<open>
  \<^verbatim>\<open>store.DB.Exec\<close> and \<^verbatim>\<open>store.DB.Select\<close> run outside every transaction, on the
  committed tables.
\<close>

definition DB_Exec :: "store \<Rightarrow> (tables \<Rightarrow> error + tables) \<Rightarrow> error option \<times> store" where
  "DB_Exec s stmt =
     (case draw s of
        (True, s1) \<Rightarrow> (Some ErrDriver, s1)
      | (False, s1) \<Rightarrow>
          (case stmt (DB s1) of
             Inl err \<Rightarrow> (Some err, s1)
           | Inr T' \<Rightarrow> (None, s1\<lparr>DB := T'\<rparr>)))"

definition DB_Select :: "store \<Rightarrow> (tables \<Rightarrow> error + 'r list) \<Rightarrow> (error + 'r list) \<times> store" where
  "DB_Select s query =
     (case draw s of
        (True, s1) \<Rightarrow> (Inl ErrDriver, s1)
      | (False, s1) \<Rightarrow> (query (DB s1), s1))"

subsection \<open>NewTx, Commit, Rollback\<close>

definition NewTx :: "store \<Rightarrow> (nat \<times> store) run" where
  "NewTx s =
     (case Beginx s of
        (Inl err, s1) \<Rightarrow> Fatal
      | (Inr tx, s1) \<Rightarrow> Returned (tx, s1))"

text \<open>A failed commit or rollback is logged and nothing more; the log is not modelled.\<close>

definition Commit :: "store \<Rightarrow> nat \<Rightarrow> store" where
  "Commit s tx = snd (tx_Commit s tx)"

definition Rollback :: "store \<Rightarrow> nat \<Rightarrow> store" where
  "Rollback s tx = snd (tx_Rollback s tx)"

definition closeRows :: "store \<Rightarrow> store" where
  "closeRows s = s"

text \<open>
  The opening of every operation that takes a transaction:
  \<^verbatim>\<open>if tx == nil { tx = store.NewTx(); defer store.Commit(tx) }\<close>.
\<close>

definition tx_or_NewTx ::
  "store \<Rightarrow> nat option \<Rightarrow> (store \<Rightarrow> nat \<Rightarrow> error option \<times> store) \<Rightarrow> (error option \<times> store) run" where
  "tx_or_NewTx s tx body =
     (case tx of
        Some t \<Rightarrow> Returned (body s t)
      | None \<Rightarrow>
          (case NewTx s of
             Fatal \<Rightarrow> Fatal
           | Returned (t, s1) \<Rightarrow>
               (case body s1 t of (err, s2) \<Rightarrow> Returned (err, Commit s2 t))))"

section \<open>The aggregate tables\<close>

text \<open>
  The \<^verbatim>\<open>id\<close> column is filled by the engine on insert.  Only its freshness matters:
  the model takes one more than the greatest identity in the table (at least 1).
\<close>

definition fresh_id :: "int list \<Rightarrow> int" where
  "fresh_id ids = 1 + fold max ids 0"

text \<open>
  The three shapes of statement the merges issue, on any of the six tables:
  the scanned first row of \<^verbatim>\<open>SELECT id, visitors FROM t WHERE ...\<close> (the two selected
  columns are set in the zero-valued destination struct, every other field keeps its
  zero value), \<^verbatim>\<open>UPDATE t SET visitors = $1 WHERE id = $2\<close>, and
  \<^verbatim>\<open>INSERT INTO t (...) VALUES (...)\<close> of every field of an entity but its identity.
\<close>

definition select_id_visitors ::
  "'a stats_scheme \<Rightarrow> ('a stats_scheme \<Rightarrow> bool) \<Rightarrow> 'a stats_scheme list \<Rightarrow> 'a stats_scheme option" where
  "select_id_visitors zero cond rows =
     map_option (\<lambda>r. zero\<lparr>ID := ID r, Visitors := Visitors r\<rparr>) (find cond rows)"


definition insert_row :: "'a stats_scheme \<Rightarrow> 'a stats_scheme list \<Rightarrow> 'a stats_scheme list" where
  "insert_row e rows = rows @ [e\<lparr>ID := fresh_id (map ID rows)\<rparr>]"

subsection \<open>createUpdateEntity\<close>


subsection \<open>visitor\_stats\<close>

text \<open>
  \<^verbatim>\<open>SELECT id, visitors FROM "visitor_stats" WHERE ($1::bigint IS NULL OR tenant_id = $1)
  AND "day" = $2 AND LOWER("path") = LOWER($3)\<close>
\<close>

definition select_visitor_stats ::
  "NullInt64 \<Rightarrow> date \<Rightarrow> string \<Rightarrow> tables \<Rightarrow> visitor_stats option" where
  "select_visitor_stats tenantID d p T =
     select_id_visitors new_VisitorStats
       (\<lambda>r. tenant_match tenantID (TenantID r) \<and> Day r = d \<and> LOWER (Path r) = LOWER p)
       (t_visitor_stats T)"

text \<open>
  \<^verbatim>\<open>UPDATE "visitor_stats" SET visitors = $1, platform_desktop = $2, platform_mobile = $3,
  platform_unknown = $4 WHERE id = $5\<close>
\<close>

definition update_visitor_stats ::
  "int \<Rightarrow> int \<Rightarrow> int \<Rightarrow> int \<Rightarrow> int \<Rightarrow> tables \<Rightarrow> error + tables" where
  "update_visitor_stats v pd pm pu i T =
     Inr (T\<lparr>t_visitor_stats :=
       map (\<lambda>r. if ID r = i
                then r\<lparr>Visitors := v, PlatformDesktop := pd, PlatformMobile := pm,
                       PlatformUnknown := pu\<rparr>
                else r)
         (t_visitor_stats T)\<rparr>)"

text \<open>
  \<^verbatim>\<open>INSERT INTO "visitor_stats" ("tenant_id", "day", "path", "visitors", "platform_desktop",
  "platform_mobile", "platform_unknown") VALUES (:tenant_id, :day, :path, :visitors,
  :platform_desktop, :platform_mobile, :platform_unknown)\<close>
\<close>

definition insert_visitor_stats :: "visitor_stats \<Rightarrow> tables \<Rightarrow> error + tables" where
  "insert_visitor_stats e T = Inr (T\<lparr>t_visitor_stats := insert_row e (t_visitor_stats T)\<rparr>)"

definition SaveVisitorStats_tx :: "visitor_stats \<Rightarrow> store \<Rightarrow> nat \<Rightarrow> error option \<times> store" where
  "SaveVisitorStats_tx entity s tx =
     (case tx_Get s tx (select_visitor_stats (TenantID entity) (Day entity) (Path entity)) of
        (Inr existing, s1) \<Rightarrow>
          tx_Exec s1 tx
            (update_visitor_stats
               (Visitors existing + Visitors entity)
               (PlatformDesktop existing + PlatformDesktop entity)
               (PlatformMobile existing + PlatformMobile entity)
               (PlatformUnknown existing + PlatformUnknown entity)
               (ID existing))
      | (Inl err, s1) \<Rightarrow>
          (case tx_NamedQuery s1 tx (insert_visitor_stats entity) of
             (Some err', s2) \<Rightarrow> (Some err', s2)
           | (None, s2) \<Rightarrow> (None, closeRows s2)))"

definition SaveVisitorStats ::
  "store \<Rightarrow> nat option \<Rightarrow> visitor_stats \<Rightarrow> (error option \<times> store) run" where
  "SaveVisitorStats s tx entity = tx_or_NewTx s tx (SaveVisitorStats_tx entity)"

subsection \<open>visitor\_time\_stats\<close>






subsection \<open>language\_stats\<close>






subsection \<open>referrer\_stats\<close>






subsection \<open>os\_stats\<close>






subsection \<open>browser\_stats\<close>






section \<open>The hit table\<close>

text \<open>The values a statement's positional arguments carry.\<close>

datatype sqlval =
    VInt NullInt64
  | VText string
  | VBool bool
  | VTime timestamp

text \<open>
  Modelled from the spec: the columns of table \<^verbatim>\<open>hit\<close> (section 6 of the
  specification; the schema is not part of \<^verbatim>\<open>postgres.go\<close>), each with the value a row
  holds in it.  They are the fourteen columns that the \<^verbatim>\<open>INSERT\<close> of \<^verbatim>\<open>SaveHits\<close> lists.
  A statement that names any other column of \<^verbatim>\<open>hit\<close> is rejected by the engine.
\<close>

definition hit_columns :: "(string \<times> (hit \<Rightarrow> sqlval)) list" where
  "hit_columns =
     [(''tenant_id'', \<lambda>h. VInt (tenant_id h)),
      (''fingerprint'', \<lambda>h. VText (fingerprint h)),
      (''path'', \<lambda>h. VText (path h)),
      (''url'', \<lambda>h. VText (url h)),
      (''language'', \<lambda>h. VText (language h)),
      (''user_agent'', \<lambda>h. VText (user_agent h)),
      (''ref'', \<lambda>h. VText (ref h)),
      (''os'', \<lambda>h. VText (os h)),
      (''os_version'', \<lambda>h. VText (os_version h)),
      (''browser'', \<lambda>h. VText (browser h)),
      (''browser_version'', \<lambda>h. VText (browser_version h)),
      (''desktop'', \<lambda>h. VBool (desktop h)),
      (''mobile'', \<lambda>h. VBool (mobile h)),
      (''time'', \<lambda>h. VTime (time h))]"

definition hit_column :: "string \<Rightarrow> (hit \<Rightarrow> sqlval) option" where
  "hit_column c = map_of hit_columns c"

subsection \<open>DeleteHitsByDay\<close>

text \<open>
  \<^verbatim>\<open>DELETE FROM "hit" WHERE ($1::bigint IS NULL OR tenant_id = $1) AND time >= $2
  AND time < $2 + INTERVAL '1 day'\<close>
\<close>

definition delete_hit_by_day :: "NullInt64 \<Rightarrow> timestamp \<Rightarrow> tables \<Rightarrow> error + tables" where
  "delete_hit_by_day tenantID d T =
     Inr (T\<lparr>t_hit :=
       filter (\<lambda>h. \<not> (tenant_match tenantID (tenant_id h) \<and> d \<le> time h \<and> time h < plus_1_day d))
         (t_hit T)\<rparr>)"

definition DeleteHitsByDay ::
  "store \<Rightarrow> nat option \<Rightarrow> NullInt64 \<Rightarrow> timestamp \<Rightarrow> (error option \<times> store) run" where
  "DeleteHitsByDay s tx tenantID d =
     tx_or_NewTx s tx (\<lambda>s1 t. tx_Exec s1 t (delete_hit_by_day tenantID d))"

subsection \<open>Days\<close>

text \<open>
  \<^verbatim>\<open>SELECT DISTINCT date("time") FROM "hit" WHERE ($1::bigint IS NULL OR tenant_id = $1)
  AND date("time") < current_date\<close>.
  The statement has no \<^verbatim>\<open>ORDER BY\<close>, so SQL leaves the order of the result to the
  engine; the model returns each value once, in the order the table is scanned.
\<close>

definition select_distinct_date :: "NullInt64 \<Rightarrow> date \<Rightarrow> tables \<Rightarrow> error + date list" where
  "select_distinct_date tenantID today T =
     Inr (remdups (map (\<lambda>h. date_of (time h))
       (filter (\<lambda>h. tenant_match tenantID (tenant_id h) \<and> date_of (time h) < today) (t_hit T))))"

definition Days :: "store \<Rightarrow> NullInt64 \<Rightarrow> (error + date list) \<times> store" where
  "Days s tenantID = DB_Select s (select_distinct_date tenantID (current_date s))"

subsection \<open>Paths\<close>

text \<open>
  \<^verbatim>\<open>SELECT DISTINCT "path" FROM "hit" WHERE ($1::bigint IS NULL OR tenant_id = $1)
  AND "day" = $2\<close>.
  The statement reads the columns \<^verbatim>\<open>path\<close>, \<^verbatim>\<open>tenant_id\<close> and \<^verbatim>\<open>day\<close> of \<^verbatim>\<open>hit\<close>; the engine
  rejects it when one of them is not a column of the table.
\<close>

definition select_distinct_path :: "NullInt64 \<Rightarrow> timestamp \<Rightarrow> tables \<Rightarrow> error + sqlval list" where
  "select_distinct_path tenantID d T =
     (case hit_column ''path'' of
        None \<Rightarrow> Inl (ErrUndefinedColumn ''path'')
      | Some path_col \<Rightarrow>
          (case hit_column ''tenant_id'' of
             None \<Rightarrow> Inl (ErrUndefinedColumn ''tenant_id'')
           | Some tenant_col \<Rightarrow>
               (case hit_column ''day'' of
                  None \<Rightarrow> Inl (ErrUndefinedColumn ''day'')
                | Some day_col \<Rightarrow>
                    Inr (remdups (map path_col
                      (filter (\<lambda>h. (tenantID = None \<or> tenant_col h = VInt tenantID) \<and>
                                    day_col h = VTime d)
                         (t_hit T)))))))"

text \<open>The selected values are scanned into a \<^verbatim>\<open>[]string\<close>.\<close>

fun scan_strings :: "sqlval list \<Rightarrow> error + string list" where
  "scan_strings [] = Inr []"
| "scan_strings (VText p # vs) =
     (case scan_strings vs of Inl err \<Rightarrow> Inl err | Inr ps \<Rightarrow> Inr (p # ps))"
| "scan_strings (v # vs) = Inl ErrDriver"

definition Paths :: "store \<Rightarrow> NullInt64 \<Rightarrow> timestamp \<Rightarrow> (error + string list) \<times> store" where
  "Paths s tenantID d =
     DB_Select s (\<lambda>T. case select_distinct_path tenantID d T of
                         Inl err \<Rightarrow> Inl err
                       | Inr vs \<Rightarrow> scan_strings vs)"

subsection \<open>SaveHits: building the statement\<close>

text \<open>\<^verbatim>\<open>%d\<close> of \<^verbatim>\<open>fmt.Sprintf\<close> on a number that is not negative.\<close>

fun show_nat :: "nat \<Rightarrow> string" where
  "show_nat n =
     (if n < 10 then [char_of (48 + n)]
      else show_nat (n div 10) @ [char_of (48 + n mod 10)])"

definition insert_hit_header :: string where
  \<open>insert_hit_header = ''INSERT INTO "hit" (tenant_id, fingerprint, path, url, language, user_agent, ref, os, os_version, browser, browser_version, desktop, mobile, time) VALUES ''\<close>

text \<open>
  \<^verbatim>\<open>fmt.Sprintf(`($%d, $%d, $%d, $%d, $%d, $%d, $%d, $%d, $%d, $%d, $%d, $%d, $%d, $%d),`,
  index+1, ..., index+14)\<close>
\<close>

definition values_tuple :: "nat \<Rightarrow> string" where
  "values_tuple index =
     ''($'' @ show_nat (index + 1) @ '', $'' @ show_nat (index + 2) @
     '', $'' @ show_nat (index + 3) @ '', $'' @ show_nat (index + 4) @
     '', $'' @ show_nat (index + 5) @ '', $'' @ show_nat (index + 6) @
     '', $'' @ show_nat (index + 7) @ '', $'' @ show_nat (index + 8) @
     '', $'' @ show_nat (index + 9) @ '', $'' @ show_nat (index + 10) @
     '', $'' @ show_nat (index + 11) @ '', $'' @ show_nat (index + 12) @
     '', $'' @ show_nat (index + 13) @ '', $'' @ show_nat (index + 14) @ ''),''"

text \<open>The fourteen arguments one hit appends, in the order of the appends.\<close>

definition hit_args :: "hit \<Rightarrow> sqlval list" where
  "hit_args h =
     [VInt (tenant_id h), VText (fingerprint h), VText (path h), VText (url h),
      VText (language h), VText (user_agent h), VText (ref h), VText (os h),
      VText (os_version h), VText (browser h), VText (browser_version h),
      VBool (desktop h), VBool (mobile h), VTime (time h)]"

text \<open>\<^verbatim>\<open>for i, hit := range hits\<close>, from index \<open>i\<close> on, with the arguments and the text so far.\<close>

fun SaveHits_loop :: "nat \<Rightarrow> hit list \<Rightarrow> sqlval list \<Rightarrow> string \<Rightarrow> sqlval list \<times> string" where
  "SaveHits_loop i [] args query = (args, query)"
| "SaveHits_loop i (h # hits) args query =
     SaveHits_loop (Suc i) hits (args @ hit_args h) (query @ values_tuple (i * 14))"

subsection \<open>SaveHits: what the engine does with the statement\<close>

text \<open>
  The engine receives the text and the arguments of \<^verbatim>\<open>SaveHits\<close>.  It accepts
  \<^verbatim>\<open>INSERT INTO "hit" (...) VALUES\<close> with the fourteen columns, followed by one or more
  parenthesised tuples separated by commas, each of fourteen parameters \<^verbatim>\<open>$n\<close>
  separated by commas; blanks may stand between the tokens.  Anything else is a syntax
  error.  A statement carries at most 65535 arguments, every \<^verbatim>\<open>$n\<close> must name one of
  them, and the value of each must fit the type of its column.  An accepted statement
  appends one row per tuple; a rejected one changes nothing.
\<close>

definition insert_hit_keywords :: string where
  \<open>insert_hit_keywords = ''INSERT INTO "hit" (tenant_id, fingerprint, path, url, language, user_agent, ref, os, os_version, browser, browser_version, desktop, mobile, time) VALUES''\<close>

definition strip_prefix :: "string \<Rightarrow> string \<Rightarrow> string option" where
  "strip_prefix p s = (if take (length p) s = p then Some (drop (length p) s) else None)"

definition skip_spaces :: "string \<Rightarrow> string" where
  "skip_spaces s = dropWhile (\<lambda>c. c = CHR '' '') s"

definition is_digit :: "char \<Rightarrow> bool" where
  "is_digit c = (48 \<le> (of_char c :: nat) \<and> (of_char c :: nat) \<le> 57)"

definition nat_of_digits :: "string \<Rightarrow> nat" where
  "nat_of_digits ds = foldl (\<lambda>a c. 10 * a + ((of_char c :: nat) - 48)) 0 ds"

definition parse_param :: "string \<Rightarrow> (nat \<times> string) option" where
  "parse_param s =
     (case s of
        [] \<Rightarrow> None
      | c # cs \<Rightarrow>
          if c = CHR ''$'' \<and> takeWhile is_digit cs \<noteq> []
          then Some (nat_of_digits (takeWhile is_digit cs), dropWhile is_digit cs)
          else None)"

fun parse_params :: "nat \<Rightarrow> string \<Rightarrow> (nat list \<times> string) option" where
  "parse_params 0 s = Some ([], s)"
| "parse_params (Suc n) s =
     (case parse_param (skip_spaces s) of
        None \<Rightarrow> None
      | Some (k, r) \<Rightarrow>
          if n = 0 then Some ([k], r)
          else (case skip_spaces r of
                  [] \<Rightarrow> None
                | c # r1 \<Rightarrow>
                    if c = CHR '','' then
                      (case parse_params n r1 of
                         None \<Rightarrow> None
                       | Some (ks, r2) \<Rightarrow> Some (k # ks, r2))
                    else None))"

definition parse_tuple :: "string \<Rightarrow> (nat list \<times> string) option" where
  "parse_tuple s =
     (case skip_spaces s of
        [] \<Rightarrow> None
      | c # r \<Rightarrow>
          if c = CHR ''('' then
            (case parse_params 14 r of
               None \<Rightarrow> None
             | Some (ks, r1) \<Rightarrow>
                 (case skip_spaces r1 of
                    [] \<Rightarrow> None
                  | c1 # r2 \<Rightarrow> if c1 = CHR '')'' then Some (ks, r2) else None))
          else None)"

text \<open>
  The list of tuples.  Every tuple consumes at least one character, so the length of
  the text is fuel enough.
\<close>

fun parse_tuples :: "nat \<Rightarrow> string \<Rightarrow> nat list list option" where
  "parse_tuples 0 s = None"
| "parse_tuples (Suc fuel) s =
     (case parse_tuple s of
        None \<Rightarrow> None
      | Some (ks, r) \<Rightarrow>
          (case skip_spaces r of
             [] \<Rightarrow> Some [ks]
           | c # r1 \<Rightarrow>
               if c = CHR '','' then
                 (case parse_tuples fuel r1 of
                    None \<Rightarrow> None
                  | Some kss \<Rightarrow> Some (ks # kss))
               else None))"

definition parse_insert_hit :: "string \<Rightarrow> nat list list option" where
  "parse_insert_hit q =
     (case strip_prefix insert_hit_keywords q of
        None \<Rightarrow> None
      | Some rest \<Rightarrow> parse_tuples (length rest) rest)"

text \<open>The row that fourteen values make, when each fits its column.\<close>

definition int_value :: "sqlval \<Rightarrow> NullInt64 option" where
  "int_value v = (case v of VInt a \<Rightarrow> Some a | VText b \<Rightarrow> None | VBool c \<Rightarrow> None | VTime d \<Rightarrow> None)"

definition text_value :: "sqlval \<Rightarrow> string option" where
  "text_value v = (case v of VInt a \<Rightarrow> None | VText b \<Rightarrow> Some b | VBool c \<Rightarrow> None | VTime d \<Rightarrow> None)"

definition bool_value :: "sqlval \<Rightarrow> bool option" where
  "bool_value v = (case v of VInt a \<Rightarrow> None | VText b \<Rightarrow> None | VBool c \<Rightarrow> Some c | VTime d \<Rightarrow> None)"

definition time_value :: "sqlval \<Rightarrow> timestamp option" where
  "time_value v = (case v of VInt a \<Rightarrow> None | VText b \<Rightarrow> None | VBool c \<Rightarrow> None | VTime d \<Rightarrow> Some d)"

definition hit_of_values :: "sqlval list \<Rightarrow> hit option" where
  "hit_of_values vs =
     (if length vs = 14 then
        Option.bind (int_value (vs ! 0)) (\<lambda>a.
        Option.bind (text_value (vs ! 1)) (\<lambda>b.
        Option.bind (text_value (vs ! 2)) (\<lambda>c.
        Option.bind (text_value (vs ! 3)) (\<lambda>d.
        Option.bind (text_value (vs ! 4)) (\<lambda>e.
        Option.bind (text_value (vs ! 5)) (\<lambda>f.
        Option.bind (text_value (vs ! 6)) (\<lambda>g.
        Option.bind (text_value (vs ! 7)) (\<lambda>h.
        Option.bind (text_value (vs ! 8)) (\<lambda>i.
        Option.bind (text_value (vs ! 9)) (\<lambda>j.
        Option.bind (text_value (vs ! 10)) (\<lambda>k.
        Option.bind (bool_value (vs ! 11)) (\<lambda>l.
        Option.bind (bool_value (vs ! 12)) (\<lambda>m.
        Option.bind (time_value (vs ! 13)) (\<lambda>n.
          Some \<lparr>tenant_id = a, fingerprint = b, path = c, url = d, language = e,
            user_agent = f, ref = g, os = h, os_version = i, browser = j,
            browser_version = k, desktop = l, mobile = m, time = n\<rparr>))))))))))))))
      else None)"

definition params_ok :: "nat \<Rightarrow> nat list list \<Rightarrow> bool" where
  "params_ok n kss = (n \<le> 65535 \<and> list_all (list_all (\<lambda>k. 1 \<le> k \<and> k \<le> n)) kss)"

definition bind_rows :: "sqlval list \<Rightarrow> nat list list \<Rightarrow> hit list option" where
  "bind_rows args kss = those (map (\<lambda>ks. hit_of_values (map (\<lambda>k. args ! (k - 1)) ks)) kss)"

definition exec_insert_hit :: "string \<Rightarrow> sqlval list \<Rightarrow> tables \<Rightarrow> error + tables" where
  "exec_insert_hit q args T =
     (case parse_insert_hit q of
        None \<Rightarrow> Inl ErrSyntax
      | Some kss \<Rightarrow>
          if params_ok (length args) kss then
            (case bind_rows args kss of
               None \<Rightarrow> Inl ErrParameters
             | Some rows \<Rightarrow> Inr (T\<lparr>t_hit := t_hit T @ rows\<rparr>))
          else Inl ErrParameters)"

subsection \<open>SaveHits\<close>

text \<open>
  \<^verbatim>\<open>queryStr[:len(queryStr)-1]\<close> panics on the empty string; the statement then runs
  through \<^verbatim>\<open>store.DB.Exec\<close>.
\<close>

definition SaveHits :: "store \<Rightarrow> hit list \<Rightarrow> (error option \<times> store) run" where
  "SaveHits s hits =
     (case SaveHits_loop 0 hits [] insert_hit_header of
        (args, queryStr) \<Rightarrow>
          if queryStr = [] then Panic
          else Returned (DB_Exec s (exec_insert_hit (take (length queryStr - 1) queryStr) args)))"

text \<open>A store with empty tables, no open transaction and an environment that never fails.\<close>

definition empty_store :: store where
  "empty_store = \<lparr>DB = empty_tables, txs = Map.empty, next_tx = 0, faults = [], current_date = 0\<rparr>"

text \<open>
  The page-level deltas of the specification's concrete scenario, on day 2024-01-01
  (day number 19723) and path \<^verbatim>\<open>/a\<close> in the global scope, and a third delta for the
  same key.
\<close>

definition page_delta1 :: visitor_stats where
  "page_delta1 = \<lparr>ID = 0, TenantID = None, Day = 19723, Path = ''/a'', Visitors = 3,
     PlatformDesktop = 2, PlatformMobile = 1, PlatformUnknown = 0\<rparr>"

definition page_delta2 :: visitor_stats where
  "page_delta2 = \<lparr>ID = 0, TenantID = None, Day = 19723, Path = ''/a'', Visitors = 2,
     PlatformDesktop = 0, PlatformMobile = 2, PlatformUnknown = 0\<rparr>"

definition page_delta3 :: visitor_stats where
  "page_delta3 = \<lparr>ID = 0, TenantID = None, Day = 19723, Path = ''/a'', Visitors = 1,
     PlatformDesktop = 0, PlatformMobile = 0, PlatformUnknown = 1\<rparr>"

text \<open>Hits and stores for the concrete runs below.\<close>

definition sample_hit :: hit where
  "sample_hit = \<lparr>tenant_id = Some 1, fingerprint = ''f1'', path = ''/a'', url = ''/a'',
     language = ''en'', user_agent = ''ua'', ref = ''r'', os = ''Linux'', os_version = ''5'',
     browser = ''Firefox'', browser_version = ''99'', desktop = True, mobile = False,
     time = 3 * 86400000000 + 5\<rparr>"

text \<open>Two hits of tenant 1, the first on day 3 and the second, stored after it, on day 2.\<close>

definition two_days_store :: store where
  "two_days_store = empty_store\<lparr>DB := empty_tables\<lparr>t_hit :=
     [sample_hit, sample_hit\<lparr>time := 2 * 86400000000 + 7\<rparr>]\<rparr>, current_date := 5\<rparr>"

text \<open>Tenant 1 on day 3, tenant 2 on day 3, tenant 1 on day 2, and a hit without tenant on day 3.\<close>

definition purge_store :: store where
  "purge_store = empty_store\<lparr>DB := empty_tables\<lparr>t_hit :=
     [sample_hit, sample_hit\<lparr>tenant_id := Some 2\<rparr>,
      sample_hit\<lparr>time := 2 * 86400000000 + 7\<rparr>, sample_hit\<lparr>tenant_id := None\<rparr>]\<rparr>\<rparr>"

text \<open>The empty store after a caller has opened transaction 0.\<close>

definition open_tx_store :: store where
  "open_tx_store = empty_store\<lparr>txs := [0 \<mapsto> empty_tables], next_tx := 1\<rparr>"






section \<open>Notions the properties are stated with\<close>

text \<open>The timestamp of 00:00 on a day.\<close>

definition day_start :: "date \<Rightarrow> timestamp" where
  "day_start n = n * usec_per_day"

text \<open>
  A hit that matches the scope and whose timestamp lies in the window from 00:00 of day
  \<open>n\<close>, included, to 00:00 of the next day, excluded.
\<close>

definition hit_in_scope_on_day :: "NullInt64 \<Rightarrow> date \<Rightarrow> hit \<Rightarrow> bool" where
  "hit_in_scope_on_day tenantID n h =
     ((tenantID = None \<or> tenant_id h = tenantID) \<and>
      day_start n \<le> time h \<and> time h < day_start (n + 1))"

text \<open>
  The tables a call works on: the committed ones when it is given no transaction (it
  opens and commits its own), the transaction's when it is given one.
\<close>

definition tables_of :: "store \<Rightarrow> nat option \<Rightarrow> tables option" where
  "tables_of s tx = (case tx of None \<Rightarrow> Some (DB s) | Some t \<Rightarrow> txs s t)"










text \<open>The parameters of the tuple that starts at \<open>index\<close>, and its text without the comma.\<close>

definition tuple_params :: "nat \<Rightarrow> nat list" where
  "tuple_params index = map (\<lambda>j. index + j) [1..<15]"

definition tuple_text :: "nat \<Rightarrow> string" where
  "tuple_text index = butlast (values_tuple index)"

section \<open>Evaluation rules\<close>

lemmas conn_defs = tx_or_NewTx_def NewTx_def Beginx_def draw_def Commit_def tx_Commit_def
  tx_Get_def tx_Exec_def tx_NamedQuery_def closeRows_def DB_Exec_def DB_Select_def

lemmas visitor_stats_defs = SaveVisitorStats_def SaveVisitorStats_tx_def
  select_visitor_stats_def update_visitor_stats_def insert_visitor_stats_def
  new_VisitorStats_def fresh_id_def tenant_match_def LOWER_def lower_char_def
  select_id_visitors_def insert_row_def

declare show_nat.simps [simp del]

lemma keywords_header: "insert_hit_header = insert_hit_keywords @ '' ''"
  by (simp add: insert_hit_header_def insert_hit_keywords_def)

lemma parse_keywords_only: "parse_insert_hit insert_hit_keywords = None"
  by (simp add: parse_insert_hit_def strip_prefix_def)

section \<open>The page-level merge\<close>

text \<open>
  Claim C1.  The specification's scenario, run on the code: the first merge on the empty
  store inserts the row with the delta as its counters; the second merge for the same key
  finds that row, adds the visitors (3 + 2 = 5), but writes the platform counters of the
  second delta alone (0, 2, 0), because the lookup selects only \<^verbatim>\<open>id\<close> and \<^verbatim>\<open>visitors\<close>
  and the platform fields of \<^verbatim>\<open>existing\<close> are still zero when the delta is added to them.
  The row the claim expects, with platform counters (2, 3, 0), is not what is stored.
\<close>

theorem SaveVisitorStats_scenario_platform_overwritten:
  "\<exists>s1 s2. SaveVisitorStats empty_store None page_delta1 = Returned (None, s1) \<and>
     t_visitor_stats (DB s1) = [page_delta1\<lparr>ID := 1\<rparr>] \<and>
     SaveVisitorStats s1 None page_delta2 = Returned (None, s2) \<and>
     t_visitor_stats (DB s2) =
       [\<lparr>ID = 1, TenantID = None, Day = 19723, Path = ''/a'', Visitors = 5,
         PlatformDesktop = 0, PlatformMobile = 2, PlatformUnknown = 0\<rparr>]"
  by (simp add: conn_defs visitor_stats_defs empty_store_def empty_tables_def
      page_delta1_def page_delta2_def)

text \<open>
  Claim C3.  A sequence of two successful merges with deltas that are not negative, on
  the code: after the first merge the row's desktop counter is 2 and its mobile counter
  is 1; after the second both are 0.  The counters of the row decrease.
\<close>

theorem SaveVisitorStats_platform_counter_decreases:
  "\<exists>s1 s2. SaveVisitorStats empty_store None page_delta1 = Returned (None, s1) \<and>
     map PlatformDesktop (t_visitor_stats (DB s1)) = [2] \<and>
     map PlatformMobile (t_visitor_stats (DB s1)) = [1] \<and>
     SaveVisitorStats s1 None page_delta3 = Returned (None, s2) \<and>
     map ID (t_visitor_stats (DB s2)) = map ID (t_visitor_stats (DB s1)) \<and>
     map PlatformDesktop (t_visitor_stats (DB s2)) = [0] \<and>
     map PlatformMobile (t_visitor_stats (DB s2)) = [0]"
  by (simp add: conn_defs visitor_stats_defs empty_store_def empty_tables_def
      page_delta1_def page_delta3_def)

section \<open>Paths\<close>

text \<open>
  Claim C5.  The statement of \<^verbatim>\<open>Paths\<close> filters on a column \<^verbatim>\<open>day\<close>, which table \<^verbatim>\<open>hit\<close>
  does not have (the day of a hit is in its timestamp \<^verbatim>\<open>time\<close>).  Whatever the store
  holds and whatever scope and day are asked for, the call returns an error and never a
  list of paths.
\<close>

theorem Paths_always_fails:
  "fst (Paths s tenantID d) = Inl ErrDriver \<or>
   fst (Paths s tenantID d) = Inl (ErrUndefinedColumn ''day'')"
  by (cases "faults s")
    (simp_all add: Paths_def DB_Select_def draw_def select_distinct_path_def hit_column_def
      hit_columns_def split: bool.splits)

section \<open>SaveHits on the empty sequence\<close>

text \<open>
  Claim C10.  For the empty sequence the loop adds nothing to the header; slicing off
  the last character (the blank after \<^verbatim>\<open>VALUES\<close>) leaves a statement with no tuple,
  which the engine rejects.  The call returns an error, and neither the committed tables
  nor any open transaction changes.
\<close>

theorem SaveHits_empty_fails:
  "\<exists>err s'. SaveHits s [] = Returned (Some err, s') \<and> DB s' = DB s \<and> txs s' = txs s \<and>
     SaveHits_loop 0 [] [] insert_hit_header = ([], insert_hit_keywords @ '' '') \<and>
     parse_insert_hit insert_hit_keywords = None"
  by (cases "faults s")
    (simp_all add: SaveHits_def keywords_header DB_Exec_def draw_def exec_insert_hit_def
      parse_keywords_only split: bool.splits)

section \<open>Calls that do not fail\<close>

lemma draw_no_fault: "faults s = [] \<Longrightarrow> draw s = (False, s)"
  by (simp add: draw_def)

lemma draw_frame:
  "draw s = (b, s1) \<Longrightarrow> DB s1 = DB s \<and> txs s1 = txs s \<and> next_tx s1 = next_tx s \<and>
     faults s1 = drop 1 (faults s) \<and> current_date s1 = current_date s"
  by (cases "faults s") (auto simp: draw_def)

lemma tx_Exec_no_fault:
  "faults s = [] \<Longrightarrow> txs s t = Some T \<Longrightarrow> stmt T = Inr T' \<Longrightarrow>
   tx_Exec s t stmt = (None, s\<lparr>txs := (txs s)(t \<mapsto> T')\<rparr>)"
  by (simp add: tx_Exec_def draw_no_fault)


lemma NewTx_no_fault:
  "faults s = [] \<Longrightarrow>
   NewTx s = Returned (next_tx s, s\<lparr>txs := (txs s)(next_tx s \<mapsto> DB s), next_tx := Suc (next_tx s)\<rparr>)"
  by (simp add: NewTx_def Beginx_def draw_no_fault)

lemma Commit_no_fault:
  "faults s = [] \<Longrightarrow> txs s t = Some T \<Longrightarrow> Commit s t = s\<lparr>DB := T, txs := (txs s)(t := None)\<rparr>"
  by (simp add: Commit_def tx_Commit_def draw_no_fault)

text \<open>
  An operation whose statements, run without a failing call on a transaction with tables
  \<open>T\<close>, succeed and leave the transaction with \<open>F T\<close>, does the same to the tables it
  works on, whether it is given a transaction or opens and commits its own.
\<close>

lemma tx_or_NewTx_effect:
  assumes nf: "faults s = []"
    and T: "tables_of s tx = Some T"
    and body: "\<And>s0 t. faults s0 = [] \<Longrightarrow> txs s0 t = Some T \<Longrightarrow>
                 body s0 t = (None, s0\<lparr>txs := (txs s0)(t \<mapsto> F T)\<rparr>)"
  shows "\<exists>s'. tx_or_NewTx s tx body = Returned (None, s') \<and> faults s' = [] \<and>
           tables_of s' tx = Some (F T)"
proof (cases tx)
  case None
  let ?s1 = "s\<lparr>txs := (txs s)(next_tx s \<mapsto> DB s), next_tx := Suc (next_tx s)\<rparr>"
  from T None have "DB s = T" by (simp add: tables_of_def)
  then have "body ?s1 (next_tx s) = (None, ?s1\<lparr>txs := (txs ?s1)(next_tx s \<mapsto> F T)\<rparr>)"
    by (intro body) (simp_all add: nf)
  then show ?thesis
    using None by (simp add: tx_or_NewTx_def NewTx_no_fault nf Commit_no_fault tables_of_def)
next
  case (Some t)
  with T have "txs s t = Some T" by (simp add: tables_of_def)
  from body [OF nf this] Some show ?thesis
    by (simp add: tx_or_NewTx_def tables_of_def nf)
qed

lemma DB_Exec_frame:
  assumes "DB_Exec s stmt = (r, s')"
  shows "txs s' = txs s \<and> next_tx s' = next_tx s \<and> faults s' = drop 1 (faults s) \<and>
         current_date s' = current_date s"
proof (cases "draw s")
  case (Pair b s1)
  from draw_frame [OF Pair] assms Pair show ?thesis
    by (cases b) (auto simp: DB_Exec_def split: sum.splits)
qed

lemma DB_Exec_result:
  assumes "DB_Exec s stmt = (r, s')"
  shows "(r = None \<longrightarrow> stmt (DB s) = Inr (DB s')) \<and> (r \<noteq> None \<longrightarrow> DB s' = DB s)"
proof (cases "draw s")
  case (Pair b s1)
  from draw_frame [OF Pair] assms Pair show ?thesis
    by (cases b) (auto simp: DB_Exec_def split: sum.splits)
qed

lemma DB_Exec_no_fault:
  "faults s = [] \<Longrightarrow> stmt (DB s) = Inr T' \<Longrightarrow> DB_Exec s stmt = (None, s\<lparr>DB := T'\<rparr>)"
  by (simp add: DB_Exec_def draw_no_fault)

section \<open>The statement of SaveHits, read back by the engine\<close>

lemma show_nat_digits: "list_all is_digit (show_nat n)"
proof (induction n rule: show_nat.induct)
  case (1 n)
  show ?case
  proof (cases "n < 10")
    case True
    then show ?thesis by (subst show_nat.simps) (simp add: is_digit_def)
  next
    case False
    have "n mod 10 < 10" by simp
    then have "is_digit (char_of (48 + n mod 10))"
      by (simp add: is_digit_def)
    with False "1.IH" show ?thesis by (subst show_nat.simps) simp
  qed
qed

lemma show_nat_nonempty: "show_nat n \<noteq> []"
  by (subst show_nat.simps) simp

lemma nat_of_digits_snoc:
  "nat_of_digits (ds @ [c]) = 10 * nat_of_digits ds + ((of_char c :: nat) - 48)"
  by (simp add: nat_of_digits_def)

lemma nat_of_digits_show_nat: "nat_of_digits (show_nat n) = n"
proof (induction n rule: show_nat.induct)
  case (1 n)
  show ?case
  proof (cases "n < 10")
    case True
    then show ?thesis by (subst show_nat.simps) (simp add: nat_of_digits_def)
  next
    case False
    have "n mod 10 < 10" by simp
    then have "(of_char (char_of (48 + n mod 10) :: char) :: nat) = 48 + n mod 10"
      by simp
    with False "1.IH" show ?thesis
      by (subst show_nat.simps) (simp add: nat_of_digits_snoc)
  qed
qed

lemma parse_param_show_nat:
  assumes "r = [] \<or> \<not> is_digit (hd r)"
  shows "parse_param (CHR ''$'' # show_nat k @ r) = Some (k, r)"
proof -
  have all: "\<forall>c\<in>set (show_nat k). is_digit c"
    using show_nat_digits [of k] by (simp add: list_all_iff)
  have nil: "takeWhile is_digit r = []"
    using assms by (simp add: takeWhile_eq_Nil_iff)
  have tw: "takeWhile is_digit (show_nat k @ r) = show_nat k"
    using all nil by simp
  have dw: "dropWhile is_digit (show_nat k @ r) = r"
    using all nil by (metis tw takeWhile_dropWhile_id same_append_eq)
  show ?thesis
    by (simp add: parse_param_def tw dw show_nat_nonempty nat_of_digits_show_nat)
qed


lemma skip_spaces_nonspace [simp]: "c \<noteq> CHR '' '' \<Longrightarrow> skip_spaces (c # s) = c # s"
  by (simp add: skip_spaces_def)

lemma skip_spaces_Nil [simp]: "skip_spaces [] = []"
  by (simp add: skip_spaces_def)

lemma skip_spaces_space [simp]: "skip_spaces (CHR '' '' # s) = skip_spaces s"
  by (simp add: skip_spaces_def)

lemma not_digit_punct [simp]:
  "\<not> is_digit CHR '',''" "\<not> is_digit CHR '')''"
  by (simp_all add: is_digit_def)

lemma parse_params_text:
  "parse_params (Suc (length ks))
     (CHR ''$'' # show_nat k @ concat (map (\<lambda>j. '', $'' @ show_nat j) ks) @ CHR '')'' # r)
   = Some (k # ks, CHR '')'' # r)"
proof (induction ks arbitrary: k)
  case Nil
  then show ?case by (simp add: parse_param_show_nat)
next
  case (Cons j ks)
  have "parse_param (CHR ''$'' # show_nat k @
          ('', $'' @ show_nat j @ concat (map (\<lambda>j. '', $'' @ show_nat j) ks) @ CHR '')'' # r))
        = Some (k, '', $'' @ show_nat j @ concat (map (\<lambda>j. '', $'' @ show_nat j) ks) @ CHR '')'' # r)"
    by (rule parse_param_show_nat) simp
  then show ?case
    using Cons.IH [of j] by simp
qed

lemma upt_1_15: "[1..<15] = [1, 2, 3, 4, 5, 6, 7, 8, 9, 10, 11, 12, 13, 14 :: nat]"
  by (simp add: upt_rec)

lemma values_tuple_text:
  "values_tuple index =
     CHR ''('' # CHR ''$'' # show_nat (index + 1) @
       concat (map (\<lambda>j. '', $'' @ show_nat j) (map (\<lambda>j. index + j) [2..<15])) @ '')'' @ '',''"
proof -
  have "[2..<15] = [2, 3, 4, 5, 6, 7, 8, 9, 10, 11, 12, 13, 14 :: nat]"
    by (simp add: upt_rec)
  then show ?thesis by (simp add: values_tuple_def)
qed

lemma values_tuple_split: "values_tuple index = tuple_text index @ '',''"
  by (simp add: tuple_text_def values_tuple_def butlast_append)

lemma parse_tuple_text: "parse_tuple (tuple_text index @ r) = Some (tuple_params index, r)"
proof -
  let ?ks = "map (\<lambda>j. index + j) [2..<15]"
  have t: "tuple_text index @ r =
     CHR ''('' # CHR ''$'' # show_nat (index + 1) @
       concat (map (\<lambda>j. '', $'' @ show_nat j) ?ks) @ CHR '')'' # r"
    by (simp add: tuple_text_def values_tuple_text butlast_append)
  have n: "14 = Suc (length ?ks)" by simp
  have ps: "(index + 1) # ?ks = tuple_params index"
    by (simp add: tuple_params_def upt_rec)
  have "parse_params 14 (CHR ''$'' # show_nat (index + 1) @
       concat (map (\<lambda>j. '', $'' @ show_nat j) ?ks) @ CHR '')'' # r) = Some ((index + 1) # ?ks, CHR '')'' # r)"
    unfolding n by (rule parse_params_text)
  then show ?thesis
    unfolding t ps [symmetric] by (simp add: parse_tuple_def)
qed

lemma tuple_text_nonempty: "tuple_text index \<noteq> []"
  by (simp add: tuple_text_def values_tuple_def butlast_append)

lemma parse_tuples_text:
  "length js < fuel \<Longrightarrow>
   parse_tuples fuel (tuple_text j @ concat (map (\<lambda>i. CHR '','' # tuple_text i) js))
     = Some (map tuple_params (j # js))"
proof (induction js arbitrary: j fuel)
  case Nil
  then obtain f where "fuel = Suc f" by (cases fuel) auto
  then show ?case
    using parse_tuple_text [of j "[]"] by simp
next
  case (Cons i js)
  then obtain f where f: "fuel = Suc f" "length js < f" by (cases fuel) auto
  have "parse_tuple (tuple_text j @ (CHR '','' # tuple_text i @ concat (map (\<lambda>i. CHR '','' # tuple_text i) js)))
      = Some (tuple_params j, CHR '','' # tuple_text i @ concat (map (\<lambda>i. CHR '','' # tuple_text i) js))"
    by (rule parse_tuple_text)
  then show ?case
    using Cons.IH [OF f(2), of i] f(1) by simp
qed

lemma butlast_tuples:
  "butlast (concat (map values_tuple (j # js))) =
     tuple_text j @ concat (map (\<lambda>i. CHR '','' # tuple_text i) js)"
proof (induction js arbitrary: j)
  case Nil
  then show ?case by (simp add: tuple_text_def)
next
  case (Cons i js)
  have ne: "(concat (map values_tuple (i # js)) = []) = False"
    by (simp add: values_tuple_split)
  have "butlast (concat (map values_tuple (j # i # js)))
      = butlast (values_tuple j @ concat (map values_tuple (i # js)))"
    by simp
  also have "\<dots> = values_tuple j @ butlast (concat (map values_tuple (i # js)))"
    by (simp only: butlast_append ne if_False)
  also have "\<dots> = values_tuple j @ tuple_text i @ concat (map (\<lambda>i. CHR '','' # tuple_text i) js)"
    by (simp only: Cons.IH)
  also have "\<dots> = tuple_text j @ concat (map (\<lambda>i. CHR '','' # tuple_text i) (i # js))"
    by (simp add: values_tuple_split)
  finally show ?case .
qed

lemma length_concat_ge:
  "(\<And>x. x \<in> set xs \<Longrightarrow> f x \<noteq> []) \<Longrightarrow> length xs \<le> length (concat (map f xs))"
proof (induction xs)
  case Nil
  then show ?case by simp
next
  case (Cons x xs)
  then have "f x \<noteq> []" by simp
  then have "1 \<le> length (f x)" by (cases "f x") auto
  with Cons show ?case by simp
qed


lemma SaveHits_loop_eq:
  "SaveHits_loop i hits args q =
     (args @ concat (map hit_args hits),
      q @ concat (map (\<lambda>j. values_tuple (j * 14)) [i..<i + length hits]))"
proof (induction hits arbitrary: i args q)
  case Nil
  then show ?case by simp
next
  case (Cons h hits)
  have "[i..<i + Suc (length hits)] = i # [Suc i..<Suc (i + length hits)]"
    by (subst upt_rec) simp
  then show ?case by (simp add: Cons.IH)
qed

lemma parse_tuples_space: "parse_tuples fuel (CHR '' '' # s) = parse_tuples fuel s"
  by (cases fuel) (simp_all add: parse_tuple_def)

lemma statement_text:
  assumes "hits \<noteq> []"
  shows "butlast (snd (SaveHits_loop 0 hits [] insert_hit_header)) =
       insert_hit_keywords @ CHR '' '' #
         tuple_text 0 @
         concat (map (\<lambda>i. CHR '','' # tuple_text i) (map (\<lambda>j. j * 14) [1..<length hits]))"
proof -
  let ?js = "map (\<lambda>j. j * 14) [1..<length hits]"
  have idx: "map (\<lambda>j. j * 14) [0..<length hits] = 0 # ?js"
    using assms by (subst upt_rec) simp
  have c: "concat (map (\<lambda>j. values_tuple (j * 14)) [0..<length hits])
      = concat (map values_tuple (0 # ?js))"
    unfolding idx [symmetric] by (simp add: comp_def)
  have ne: "(concat (map values_tuple (0 # ?js)) = []) = False"
    by (simp add: values_tuple_split)
  have "butlast (snd (SaveHits_loop 0 hits [] insert_hit_header))
      = butlast (insert_hit_header @ concat (map values_tuple (0 # ?js)))"
    by (simp only: SaveHits_loop_eq snd_conv c add_0)
  also have "\<dots> = insert_hit_header @ butlast (concat (map values_tuple (0 # ?js)))"
    by (simp only: butlast_append ne if_False)
  also have "\<dots> = insert_hit_keywords @ CHR '' '' #
         tuple_text 0 @ concat (map (\<lambda>i. CHR '','' # tuple_text i) ?js)"
    by (simp only: butlast_tuples keywords_header) simp
  finally show ?thesis .
qed

lemma parse_statement:
  assumes "hits \<noteq> []"
  shows "parse_insert_hit (butlast (snd (SaveHits_loop 0 hits [] insert_hit_header)))
     = Some (map (\<lambda>j. tuple_params (j * 14)) [0..<length hits])"
proof -
  let ?js = "map (\<lambda>j. j * 14) [1..<length hits]"
  let ?T = "tuple_text 0 @ concat (map (\<lambda>i. CHR '','' # tuple_text i) ?js)"
  have idx: "map (\<lambda>j. j * 14) [0..<length hits] = 0 # ?js"
    using assms by (subst upt_rec) simp
  have "length ?js \<le> length (concat (map (\<lambda>i. CHR '','' # tuple_text i) ?js))"
    by (rule length_concat_ge) simp
  then have fuel: "length ?js < length (CHR '' '' # ?T)"
    by simp
  have "parse_insert_hit (insert_hit_keywords @ CHR '' '' # ?T)
      = parse_tuples (length (CHR '' '' # ?T)) (CHR '' '' # ?T)"
    by (simp add: parse_insert_hit_def strip_prefix_def)
  also have "\<dots> = parse_tuples (length (CHR '' '' # ?T)) ?T"
    by (rule parse_tuples_space)
  also have "\<dots> = Some (map tuple_params (0 # ?js))"
    using fuel by (rule parse_tuples_text)
  also have "\<dots> = Some (map (\<lambda>j. tuple_params (j * 14)) [0..<length hits])"
    unfolding idx [symmetric] by (simp add: comp_def)
  finally show ?thesis unfolding statement_text [OF assms] .
qed

lemma hit_of_values_hit_args: "hit_of_values (hit_args h) = Some h"
  by (simp add: hit_of_values_def hit_args_def int_value_def text_value_def bool_value_def
      time_value_def)

lemma length_hit_args: "length (hit_args h) = 14"
  by (simp add: hit_args_def)

lemma length_args: "length (concat (map hit_args hits)) = 14 * length hits"
  by (induction hits) (simp_all add: length_hit_args)

lemma drop_args: "drop (j * 14) (concat (map hit_args hits)) = concat (map hit_args (drop j hits))"
proof (induction hits arbitrary: j)
  case Nil
  then show ?case by simp
next
  case (Cons h hits)
  show ?case
  proof (cases j)
    case 0
    then show ?thesis by simp
  next
    case (Suc k)
    then show ?thesis using Cons.IH [of k] by (simp add: length_hit_args)
  qed
qed

lemma bound_args:
  assumes "j < length hits"
  shows "map (\<lambda>k. concat (map hit_args hits) ! (k - 1)) (tuple_params (j * 14)) = hit_args (hits ! j)"
proof -
  let ?args = "concat (map hit_args hits)"
  have d: "drop j hits = hits ! j # drop (Suc j) hits"
    using assms by (simp add: Cons_nth_drop_Suc)
  have t: "take 14 (drop (j * 14) ?args) = hit_args (hits ! j)"
    by (simp add: drop_args d length_hit_args)
  have le: "j * 14 + 14 \<le> length ?args"
    using assms by (simp add: length_args)
  have "map (\<lambda>k. ?args ! (k - 1)) (tuple_params (j * 14)) = map (\<lambda>i. ?args ! (j * 14 + i)) [0..<14]"
    by (simp add: tuple_params_def upt_rec)
  also have "\<dots> = take 14 (drop (j * 14) ?args)"
    using le by (intro nth_equalityI) simp_all
  finally show ?thesis using t by simp
qed

lemma those_map_Some: "those (map Some xs) = Some xs"
  by (induction xs) simp_all

lemma bind_rows_statement:
  "bind_rows (concat (map hit_args hits)) (map (\<lambda>j. tuple_params (j * 14)) [0..<length hits]) = Some hits"
proof -
  have "map (\<lambda>ks. hit_of_values (map (\<lambda>k. concat (map hit_args hits) ! (k - 1)) ks))
          (map (\<lambda>j. tuple_params (j * 14)) [0..<length hits])
      = map (\<lambda>j. Some (hits ! j)) [0..<length hits]"
    by (simp add: bound_args hit_of_values_hit_args del: One_nat_def)
  also have "\<dots> = map Some hits"
    by (intro nth_equalityI) simp_all
  finally show ?thesis by (simp add: bind_rows_def those_map_Some)
qed

lemma params_ok_statement:
  "params_ok (length (concat (map hit_args hits))) (map (\<lambda>j. tuple_params (j * 14)) [0..<length hits])
     = (14 * length hits \<le> 65535)"
proof -
  have "list_all (list_all (\<lambda>k. 1 \<le> k \<and> k \<le> 14 * length hits))
     (map (\<lambda>j. tuple_params (j * 14)) [0..<length hits])"
    by (auto simp: list_all_iff tuple_params_def)
  then show ?thesis by (simp add: params_ok_def length_args)
qed

lemma exec_statement:
  assumes "hits \<noteq> []"
  shows "exec_insert_hit (butlast (snd (SaveHits_loop 0 hits [] insert_hit_header)))
           (fst (SaveHits_loop 0 hits [] insert_hit_header)) T =
         (if 14 * length hits \<le> 65535 then Inr (T\<lparr>t_hit := t_hit T @ hits\<rparr>) else Inl ErrParameters)"
proof -
  have a: "fst (SaveHits_loop 0 hits [] insert_hit_header) = concat (map hit_args hits)"
    by (simp add: SaveHits_loop_eq)
  show ?thesis
    unfolding exec_insert_hit_def parse_statement [OF assms] a
    by (simp add: params_ok_statement bind_rows_statement)
qed


lemma SaveHits_eq:
  "SaveHits s hits = Returned (DB_Exec s (exec_insert_hit
      (butlast (snd (SaveHits_loop 0 hits [] insert_hit_header)))
      (fst (SaveHits_loop 0 hits [] insert_hit_header))))"
proof (cases "SaveHits_loop 0 hits [] insert_hit_header")
  case (Pair args q)
  have "insert_hit_header \<noteq> []"
    by (simp add: insert_hit_header_def)
  with Pair have "q \<noteq> []"
    by (auto simp: SaveHits_loop_eq)
  with Pair show ?thesis
    by (simp add: SaveHits_def butlast_conv_take)
qed

lemma SaveHits_no_fault:
  assumes "hits \<noteq> []" and "14 * length hits \<le> 65535" and "faults s = []"
  shows "SaveHits s hits = Returned (None, s\<lparr>DB := (DB s)\<lparr>t_hit := t_hit (DB s) @ hits\<rparr>\<rparr>)"
  unfolding SaveHits_eq
  using assms by (simp add: DB_Exec_no_fault exec_statement)

lemmas sample_defs = two_days_store_def purge_store_def open_tx_store_def empty_store_def
  empty_tables_def sample_hit_def

section \<open>Days\<close>

lemma Days_result:
  "fst (Days s tenantID) = Inr days \<Longrightarrow>
   days = remdups (map (\<lambda>h. date_of (time h))
       (filter (\<lambda>h. tenant_match tenantID (tenant_id h) \<and> date_of (time h) < current_date s)
          (t_hit (DB s))))"
  by (cases "faults s")
    (auto simp: Days_def DB_Select_def draw_def select_distinct_date_def split: bool.splits)

lemma Days_two_days_store: "fst (Days two_days_store None) = Inr [3, 2]"
  by (simp add: Days_def DB_Select_def draw_def select_distinct_date_def sample_defs
      tenant_match_def date_of_def usec_per_day_def)

text \<open>
  Claim C6, as stated: the days come in ascending order.  The statement has no
  \<^verbatim>\<open>ORDER BY\<close>; with a hit of day 3 stored before a hit of day 2 the result is day 3,
  then day 2.
\<close>

theorem Days_not_ascending:
  "\<exists>days. fst (Days two_days_store None) = Inr days \<and> \<not> sorted days"
  by (simp add: Days_two_days_store)

text \<open>
  Claim C6, amended: when \<^verbatim>\<open>Days\<close> returns a list, the list holds each calendar day
  exactly once that is the day of a hit of the scope and lies before the engine's current
  date, and no other; the current day is never in it.  Nothing is said about the order.
\<close>

theorem Days_distinct_before_today:
  assumes "fst (Days s tenantID) = Inr days"
  shows "distinct days \<and>
     set days = {d. \<exists>h \<in> set (t_hit (DB s)). (tenantID = None \<or> tenant_id h = tenantID) \<and>
                    date_of (time h) = d \<and> d < current_date s} \<and>
     current_date s \<notin> set days"
proof -
  have d: "days = remdups (map (\<lambda>h. date_of (time h))
       (filter (\<lambda>h. tenant_match tenantID (tenant_id h) \<and> date_of (time h) < current_date s)
          (t_hit (DB s))))"
    using assms by (rule Days_result)
  show ?thesis unfolding d by (auto simp: tenant_match_def)
qed

theorem Days_distinct_before_today_witness:
  "fst (Days two_days_store None) = Inr [3, 2] \<and> distinct [3::int, 2] \<and>
   current_date two_days_store \<notin> set [3, 2]"
  using Days_distinct_before_today [OF Days_two_days_store] Days_two_days_store by simp

section \<open>DeleteHitsByDay\<close>

lemma day_start_Suc: "day_start (n + 1) = plus_1_day (day_start n)"
  by (simp add: day_start_def plus_1_day_def algebra_simps)

lemma delete_hit_by_day_start:
  "delete_hit_by_day tenantID (day_start n) T =
     Inr (T\<lparr>t_hit := filter (\<lambda>h. \<not> hit_in_scope_on_day tenantID n h) (t_hit T)\<rparr>)"
  by (simp add: delete_hit_by_day_def hit_in_scope_on_day_def day_start_Suc tenant_match_def)

lemma in_day_iff: "(day_start n \<le> t \<and> t < day_start (n + 1)) = (date_of t = n)"
proof -
  have "(n * 86400000000 \<le> t \<and> t < n * 86400000000 + 86400000000) = (t div 86400000000 = n)"
    by linarith
  then show ?thesis
    by (simp add: day_start_def date_of_def usec_per_day_def algebra_simps)
qed

text \<open>
  Claim C8.  When no call fails, \<^verbatim>\<open>DeleteHitsByDay\<close> with the timestamp of 00:00 of day
  \<open>n\<close> returns without error, and the tables it works on are the earlier ones with
  exactly the hits removed that match the scope and lie in the window from 00:00 of day
  \<open>n\<close> to 00:00 of day \<open>n + 1\<close>: the other hits stay, in their order, and so does every
  other table.  A hit is in the window when its calendar day is \<open>n\<close>; the absent scope
  matches the hits of every tenant, the scope of a tenant those of that tenant only.
\<close>

theorem DeleteHitsByDay_deletes_exactly:
  assumes "faults s = []" and "tables_of s tx = Some T"
  shows "\<exists>s'. DeleteHitsByDay s tx tenantID (day_start n) = Returned (None, s') \<and>
     tables_of s' tx =
       Some (T\<lparr>t_hit := filter (\<lambda>h. \<not> hit_in_scope_on_day tenantID n h) (t_hit T)\<rparr>) \<and>
     (\<forall>h. hit_in_scope_on_day tenantID n h =
            ((tenantID = None \<or> tenant_id h = tenantID) \<and> date_of (time h) = n))"
proof -
  have "\<exists>s'. tx_or_NewTx s tx (\<lambda>s1 t. tx_Exec s1 t (delete_hit_by_day tenantID (day_start n)))
          = Returned (None, s') \<and> faults s' = [] \<and>
        tables_of s' tx =
          Some (T\<lparr>t_hit := filter (\<lambda>h. \<not> hit_in_scope_on_day tenantID n h) (t_hit T)\<rparr>)"
    using assms by (rule tx_or_NewTx_effect) (simp add: tx_Exec_no_fault delete_hit_by_day_start)
  then show ?thesis
    by (auto simp: DeleteHitsByDay_def hit_in_scope_on_day_def in_day_iff)
qed

theorem DeleteHitsByDay_deletes_exactly_witness:
  "faults purge_store = [] \<and> tables_of purge_store None = Some (DB purge_store) \<and>
   (\<exists>s'. DeleteHitsByDay purge_store None (Some 1) (day_start 3) = Returned (None, s') \<and>
      tables_of s' None = Some (empty_tables\<lparr>t_hit :=
        [sample_hit\<lparr>tenant_id := Some 2\<rparr>, sample_hit\<lparr>time := 2 * 86400000000 + 7\<rparr>,
         sample_hit\<lparr>tenant_id := None\<rparr>]\<rparr>))"
proof -
  have f: "faults purge_store = []" and t: "tables_of purge_store None = Some (DB purge_store)"
    by (simp_all add: sample_defs tables_of_def)
  have "filter (\<lambda>h. \<not> hit_in_scope_on_day (Some 1) 3 h) (t_hit (DB purge_store)) =
      [sample_hit\<lparr>tenant_id := Some 2\<rparr>, sample_hit\<lparr>time := 2 * 86400000000 + 7\<rparr>,
         sample_hit\<lparr>tenant_id := None\<rparr>]"
    by (simp add: sample_defs hit_in_scope_on_day_def day_start_def usec_per_day_def)
  moreover have "DB purge_store\<lparr>t_hit := xs\<rparr> = empty_tables\<lparr>t_hit := xs\<rparr>" for xs
    by (simp add: sample_defs)
  ultimately show ?thesis
    using DeleteHitsByDay_deletes_exactly [OF f t, of "Some 1" 3] f t by auto
qed

section \<open>SaveHits\<close>

text \<open>
  Claim C4, as stated: \<^verbatim>\<open>SaveHits\<close> inserts inside the caller's transaction, or opens and
  commits its own.  The function has no transaction parameter.  With the caller's
  transaction 0 open, the row is in the committed table as soon as \<^verbatim>\<open>SaveHits\<close> returns,
  transaction 0 does not hold it, no transaction has been opened, and rolling transaction
  0 back leaves the row in place.
\<close>

theorem SaveHits_not_in_a_transaction:
  "NewTx empty_store = Returned (0, open_tx_store) \<and>
   (\<exists>s'. SaveHits open_tx_store [sample_hit] = Returned (None, s') \<and>
      t_hit (DB s') = [sample_hit] \<and> txs s' 0 = Some empty_tables \<and>
      next_tx s' = next_tx open_tx_store \<and> t_hit (DB (Rollback s' 0)) = [sample_hit])"
proof -
  have "SaveHits open_tx_store [sample_hit] =
      Returned (None, open_tx_store\<lparr>DB := (DB open_tx_store)\<lparr>t_hit := t_hit (DB open_tx_store) @ [sample_hit]\<rparr>\<rparr>)"
    by (rule SaveHits_no_fault) (simp_all add: open_tx_store_def empty_store_def)
  then show ?thesis
    by (simp add: NewTx_no_fault open_tx_store_def empty_store_def empty_tables_def
        Rollback_def tx_Rollback_def draw_def)
qed

text \<open>
  Claim C4, amended: \<^verbatim>\<open>SaveHits\<close> always returns, makes exactly one call to the engine (its
  single \<^verbatim>\<open>INSERT\<close>, through the database handle), and neither opens, commits nor
  touches a transaction: the open transactions and the transaction counter are as before.
\<close>

theorem SaveHits_outside_transactions:
  "\<exists>r s'. SaveHits s hits = Returned (r, s') \<and> txs s' = txs s \<and> next_tx s' = next_tx s \<and>
      faults s' = drop 1 (faults s)"
proof -
  obtain r s' where e: "DB_Exec s (exec_insert_hit
      (butlast (snd (SaveHits_loop 0 hits [] insert_hit_header)))
      (fst (SaveHits_loop 0 hits [] insert_hit_header))) = (r, s')"
    by (cases "DB_Exec s (exec_insert_hit
      (butlast (snd (SaveHits_loop 0 hits [] insert_hit_header)))
      (fst (SaveHits_loop 0 hits [] insert_hit_header)))")
  from DB_Exec_frame [OF e] e show ?thesis
    by (simp add: SaveHits_eq)
qed

text \<open>
  Claim C9.  For a sequence of hits that is not empty, \<^verbatim>\<open>SaveHits\<close> returns; when it
  returns no error the committed hit table is the earlier one followed by the hits
  themselves, one row per hit with its fourteen fields, and nothing else has changed;
  when it returns an error the committed tables are unchanged.  Success is what happens
  when the call to the engine does not fail and the arguments fit one statement.
\<close>

theorem SaveHits_appends_all_or_nothing:
  assumes "hits \<noteq> []"
  shows "\<exists>r s'. SaveHits s hits = Returned (r, s') \<and>
     (r = None \<longrightarrow> DB s' = (DB s)\<lparr>t_hit := t_hit (DB s) @ hits\<rparr>) \<and>
     (r \<noteq> None \<longrightarrow> DB s' = DB s) \<and>
     (faults s = [] \<longrightarrow> 14 * length hits \<le> 65535 \<longrightarrow> r = None)"
proof -
  let ?stmt = "exec_insert_hit
      (butlast (snd (SaveHits_loop 0 hits [] insert_hit_header)))
      (fst (SaveHits_loop 0 hits [] insert_hit_header))"
  obtain r s' where e: "DB_Exec s ?stmt = (r, s')"
    by (cases "DB_Exec s ?stmt")
  have ok: "r = None" if "faults s = []" and "14 * length hits \<le> 65535"
    using SaveHits_no_fault [OF assms that(2) that(1)] e by (simp add: SaveHits_eq)
  have "DB s' = (DB s)\<lparr>t_hit := t_hit (DB s) @ hits\<rparr>" if "r = None"
    using DB_Exec_result [OF e] that by (simp add: exec_statement [OF assms] split: if_splits)
  moreover have "DB s' = DB s" if "r \<noteq> None"
    using DB_Exec_result [OF e] that by simp
  ultimately show ?thesis
    using e ok by (auto simp: SaveHits_eq)
qed

theorem SaveHits_appends_all_or_nothing_witness:
  "[sample_hit, sample_hit\<lparr>tenant_id := None\<rparr>] \<noteq> [] \<and>
   (\<exists>s'. SaveHits two_days_store [sample_hit, sample_hit\<lparr>tenant_id := None\<rparr>] = Returned (None, s') \<and>
      t_hit (DB s') = t_hit (DB two_days_store) @ [sample_hit, sample_hit\<lparr>tenant_id := None\<rparr>])"
proof -
  have ne: "[sample_hit, sample_hit\<lparr>tenant_id := None\<rparr>] \<noteq> []" by simp
  have "faults two_days_store = []" by (simp add: sample_defs)
  with SaveHits_appends_all_or_nothing [OF ne, of two_days_store] show ?thesis
    by auto
qed

section \<open>A lookup that returns an error\<close>



lemma draw_txs: "txs (snd (draw s)) = txs s"
  using draw_frame [of s "fst (draw s)" "snd (draw s)"] by simp












section \<open>Merges that run without a failing call\<close>






























end
